theory Spec2Isabelle
  imports Complex_Main "HOL-Library.Word"
begin

section \<open>Video Sorcerer: the export pipeline of the video editor\<close>

text \<open>
  The development embeds \<^verbatim>\<open>src/components/video-edit.tsx\<close> (the component
  \<^verbatim>\<open>VideoEditor\<close> with \<^verbatim>\<open>getCanvasDimensions\<close> and \<^verbatim>\<open>exportVideo\<close>),
  its earlier variant without a format option, and the two workers
  \<^verbatim>\<open>src/lib/canvas.worker.ts\<close> and \<^verbatim>\<open>src/lib/ffmpeg.worker.ts\<close>.

  JavaScript numbers are modelled as exact rationals (\<^typ>\<open>rat\<close>): every product,
  quotient, \<^verbatim>\<open>Math.ceil\<close> and \<^verbatim>\<open>Math.round\<close> below is the exact one, without
  the rounding of IEEE-754 doubles, and the non-finite values a number can take are
  written out where the code can produce them.
\<close>

subsection \<open>Configuration types\<close>

text \<open>\<^verbatim>\<open>type VideoFilter = 'none' | 'sepia' | 'grayscale' | 'invert'\<close>\<close>

datatype VideoFilter = FilterNone | Sepia | Grayscale | Invert

text \<open>\<^verbatim>\<open>type Resolution = '1080p' | '720p' | '540p'\<close>\<close>

datatype Resolution = R1080p | R720p | R540p

text \<open>\<^verbatim>\<open>type Format = 'webm' | 'mp4'\<close>\<close>

datatype Format = Webm | Mp4

text \<open>The string each union member is at run time (what a template literal prints).\<close>

fun filter_str :: "VideoFilter \<Rightarrow> string" where
  "filter_str FilterNone = ''none''"
| "filter_str Sepia = ''sepia''"
| "filter_str Grayscale = ''grayscale''"
| "filter_str Invert = ''invert''"

fun resolution_str :: "Resolution \<Rightarrow> string" where
  "resolution_str R1080p = ''1080p''"
| "resolution_str R720p = ''720p''"
| "resolution_str R540p = ''540p''"

fun format_str :: "Format \<Rightarrow> string" where
  "format_str Webm = ''webm''"
| "format_str Mp4 = ''mp4''"

text \<open>
  The React state and refs of \<^verbatim>\<open>VideoEditor\<close> that \<^verbatim>\<open>getCanvasDimensions\<close> and
  \<^verbatim>\<open>exportVideo\<close> read. \<^verbatim>\<open>videoFile\<close>, \<^verbatim>\<open>videoRef.current\<close> and
  \<^verbatim>\<open>downloadRef.current\<close> are objects or null: only their presence matters here.
  \<^verbatim>\<open>fps\<close> is set by \<^verbatim>\<open>setFps(Number(val))\<close> from a select offering 30, 60 and 120
  (initially 30); \<^verbatim>\<open>videoWidth\<close> and \<^verbatim>\<open>videoHeight\<close> start at 16 and 9 and are
  overwritten with the element's \<^verbatim>\<open>videoWidth\<close>/\<^verbatim>\<open>videoHeight\<close> (unsigned integers).
\<close>

record editor =
  videoFile :: bool
  videoRefCurrent :: bool
  downloadRefCurrent :: bool
  vfilter :: VideoFilter
  fps :: nat
  resolution :: Resolution
  format :: Format
  videoWidth :: nat
  videoHeight :: nat

subsection \<open>Canvas dimensions\<close>









subsection \<open>Download name and blob type\<close>

text \<open>
  \<^verbatim>\<open>${fps}\<close>: the decimal digits of a non-negative integer (what
  \<^verbatim>\<open>Number.prototype.toString\<close> prints for an integer below \<open>10\<^sup>2\<^sup>1\<close>).
\<close>

definition digit_char :: "nat \<Rightarrow> char" where
  "digit_char d = ''0123456789'' ! d"

function string_of_nat :: "nat \<Rightarrow> string" where
  "string_of_nat n =
     (if n < 10 then [digit_char n] else string_of_nat (n div 10) @ [digit_char (n mod 10)])"
  by pat_completeness auto
termination
  by (relation "measure (\<lambda>n. n)") auto

declare string_of_nat.simps [simp del]

text \<open>
  \<^verbatim>\<open>`${filter !== 'none' ? filter + '-' : ''}${resolution}-${fps}fps-video.${format}`\<close>
\<close>

definition downloadName :: "VideoFilter \<Rightarrow> Resolution \<Rightarrow> nat \<Rightarrow> Format \<Rightarrow> string" where
  "downloadName f res n fmt =
     (if f \<noteq> FilterNone then filter_str f @ ''-'' else '''')
     @ resolution_str res @ ''-'' @ string_of_nat n @ ''fps-video.'' @ format_str fmt"

text \<open>The earlier variant ends the name in \<^verbatim>\<open>fps-video.webm\<close>.\<close>

definition downloadName_webm :: "VideoFilter \<Rightarrow> Resolution \<Rightarrow> nat \<Rightarrow> string" where
  "downloadName_webm f res n =
     (if f \<noteq> FilterNone then filter_str f @ ''-'' else '''')
     @ resolution_str res @ ''-'' @ string_of_nat n @ ''fps-video.webm''"

text \<open>\<^verbatim>\<open>type: format === 'mp4' ? 'video/mp4' : 'video/webm'\<close> of the blob.\<close>

definition blobType :: "Format \<Rightarrow> string" where
  "blobType fmt = (if fmt = Mp4 then ''video/mp4'' else ''video/webm'')"

text \<open>The \<^verbatim>\<open>mimeType\<close> option of the \<^verbatim>\<open>MediaRecorder\<close>.\<close>

definition recorderMimeType :: "Format \<Rightarrow> string" where
  "recorderMimeType fmt =
     (if fmt = Mp4 then ''video/mp4;codecs=avc1,mp4a.40.2'' else ''video/webm;codecs=vp9'')"

subsection \<open>The filter worker and the pixel kernels\<close>

text \<open>
  \<^verbatim>\<open>canvas.worker.ts\<close>: the \<^verbatim>\<open>switch (filter)\<close> that sets \<^verbatim>\<open>ctx.filter\<close>; every
  value other than the three named ones takes the \<^verbatim>\<open>default\<close> branch.
\<close>

fun ctxFilter :: "VideoFilter \<Rightarrow> string" where
  "ctxFilter Sepia = ''sepia(100%)''"
| "ctxFilter Grayscale = ''grayscale(100%)''"
| "ctxFilter Invert = ''invert(100%)''"
| "ctxFilter FilterNone = ''none''"

text \<open>
  \<^verbatim>\<open>ffmpeg.worker.ts\<close>: \<^verbatim>\<open>filterCmd\<close> starts as the empty string and is set by the
  \<^verbatim>\<open>if\<close>/\<^verbatim>\<open>else if\<close> chain; \<^verbatim>\<open>command\<close> passes it to \<^verbatim>\<open>-vf\<close> unless the
  filter is \<^verbatim>\<open>'none'\<close>.
\<close>

definition filterCmd :: "VideoFilter \<Rightarrow> string" where
  "filterCmd f =
     (if f = Sepia then ''colorchannelmixer=.393:.769:.189:0:.349:.686:.168:0:.272:.534:.131''
      else if f = Grayscale then ''format=gray''
      else if f = Invert then ''negate''
      else '''')"

definition command :: "VideoFilter \<Rightarrow> string list" where
  "command f =
     (if f \<noteq> FilterNone then [''-i'', ''input.mp4'', ''-vf'', filterCmd f, ''output.mp4'']
      else [''-i'', ''input.mp4'', ''output.mp4''])"

text \<open>An RGBA8 pixel: four bytes of an \<^verbatim>\<open>ImageData\<close> buffer.\<close>

type_synonym byte = "8 word"

record pixel =
  red :: byte
  green :: byte
  blue :: byte
  alpha :: byte

text \<open>
  Modelled from the spec: the saturating store of a computed channel value into a byte
  (``clamp, never wrap''), with the value rounded to the nearest integer. The source
  has no such function: the arithmetic is done by the canvas of the browser.
\<close>

definition toByte :: "rat \<Rightarrow> byte" where
  "toByte x = word_of_int (max 0 (min 255 (round x)))"

text \<open>
  Modelled from the spec: the luma of a pixel, \<open>0.299R + 0.587G + 0.114B\<close>. The source
  only names the filter (\<^verbatim>\<open>'grayscale(100%)'\<close>, \<^verbatim>\<open>'format=gray'\<close>); the formula is
  the spec's.
\<close>

definition luma :: "pixel \<Rightarrow> rat" where
  "luma p = 299 / 1000 * of_nat (unat (red p)) + 587 / 1000 * of_nat (unat (green p))
            + 114 / 1000 * of_nat (unat (blue p))"

text \<open>
  Modelled from the spec: the \<^verbatim>\<open>grayscale\<close> kernel, output \<open>(luma, luma, luma, A)\<close>
  with the luma rounded. The kernel itself is missing from the source, which delegates
  it to the canvas filter \<^verbatim>\<open>'grayscale(100%)'\<close>.
\<close>

definition grayscale :: "pixel \<Rightarrow> pixel" where
  "grayscale p =
     \<lparr>red = toByte (luma p), green = toByte (luma p), blue = toByte (luma p), alpha = alpha p\<rparr>"

text \<open>
  Modelled from the spec: the \<^verbatim>\<open>invert\<close> kernel, \<open>(255 - R, 255 - G, 255 - B, A)\<close>.
  The kernel itself is missing from the source, which delegates it to the canvas filter
  \<^verbatim>\<open>'invert(100%)'\<close> (and to \<^verbatim>\<open>negate\<close> of ffmpeg).
\<close>

definition invert :: "pixel \<Rightarrow> pixel" where
  "invert p = \<lparr>red = 255 - red p, green = 255 - green p, blue = 255 - blue p, alpha = alpha p\<rparr>"

text \<open>
  Modelled from the spec: the \<^verbatim>\<open>sepia\<close> kernel, the 3\<times>3 matrix of the spec with each
  channel clamped to \<open>[0,255]\<close>, alpha unchanged. The kernel itself is missing from the
  source (\<^verbatim>\<open>'sepia(100%)'\<close>); the spec names no rounding for it, the nearest integer is
  taken as for the luma.
\<close>

definition sepia :: "pixel \<Rightarrow> pixel" where
  "sepia p =
     (let r = of_nat (unat (red p)); g = of_nat (unat (green p)); b = of_nat (unat (blue p))
      in \<lparr>red = toByte (393 / 1000 * r + 769 / 1000 * g + 189 / 1000 * b),
          green = toByte (349 / 1000 * r + 686 / 1000 * g + 168 / 1000 * b),
          blue = toByte (272 / 1000 * r + 534 / 1000 * g + 131 / 1000 * b),
          alpha = alpha p\<rparr>)"

text \<open>
  Modelled from the spec: what drawing a pixel through a canvas whose \<^verbatim>\<open>filter\<close> is
  the given string does, for the four strings the worker sets: the kernel of that name,
  and the identity for \<^verbatim>\<open>'none'\<close>. The canvas is the browser's and is not in the
  source.
\<close>

definition canvasDraw :: "string \<Rightarrow> pixel \<Rightarrow> pixel" where
  "canvasDraw f p =
     (if f = ''sepia(100%)'' then sepia p
      else if f = ''grayscale(100%)'' then grayscale p
      else if f = ''invert(100%)'' then invert p
      else p)"

text \<open>
  \<^verbatim>\<open>self.onmessage\<close> of the canvas worker: an \<^verbatim>\<open>ImageData\<close> of the frame is drawn
  on an \<^verbatim>\<open>OffscreenCanvas\<close> of the same size with \<^verbatim>\<open>ctx.filter\<close> set, and the pixels
  read back with \<^verbatim>\<open>getImageData\<close> are posted. A frame is the list of its pixels.
\<close>

definition onmessage :: "pixel list \<Rightarrow> VideoFilter \<Rightarrow> pixel list" where
  "onmessage frameImageData f = map (canvasDraw (ctxFilter f)) frameImageData"

subsection \<open>The platform around an export\<close>

text \<open>
  What the browser does with one frame of the loop. The loop body awaits the
  \<^verbatim>\<open>seeked\<close> event of the cloned video, draws the video and reads the pixels
  (\<^verbatim>\<open>drawImage\<close>, \<^verbatim>\<open>getImageData\<close>), awaits the reply of the worker, builds an
  \<^verbatim>\<open>ImageData\<close> from the reply and puts it on the output canvas. An awaited event that
  never arrives leaves the call pending for ever; a platform call that throws leaves
  the \<^verbatim>\<open>try\<close> block.
\<close>

datatype frame_response =
    FrameOk
  | SeekNeverFires
  | DrawThrows
  | WorkerNeverReplies
  | ImageDataThrows

text \<open>
  The platform as \<^verbatim>\<open>exportVideo\<close> meets it: \<^verbatim>\<open>videoRef.current.duration\<close> (a finite
  number of seconds), whether \<^verbatim>\<open>getContext('2d')\<close> returns a context for the two
  canvases, whether the audio of the file can be fetched and decoded, whether
  \<^verbatim>\<open>new MediaRecorder\<close> accepts the mime type, and the response to each frame.

  \<^verbatim>\<open>cancelRequestedAt\<close> is a cancellation request of the caller arriving before the
  frame of that index. The component has no cancel control, flag or abort signal, so no
  definition below reads this field; it is here so that statements about cancellation
  can be made about the code.
\<close>

record platform =
  duration :: rat
  tempCtx :: bool
  outputCtx :: bool
  audioDecodes :: bool
  recorderSupported :: bool
  frameResponse :: "nat \<Rightarrow> frame_response"
  cancelRequestedAt :: "nat option"

subsection \<open>The state an export changes\<close>

datatype worker_state = NoWorker | WorkerRunning | WorkerTerminated

datatype recorder_state = NoRecorder | Recording | Inactive

datatype toast = ExportComplete | ExportFailed

text \<open>
  \<^verbatim>\<open>exporting\<close> and \<^verbatim>\<open>exportProgress\<close> are the React state; \<^verbatim>\<open>emitted\<close> lists every
  argument of \<^verbatim>\<open>setExportProgress\<close> in call order (\<^verbatim>\<open>null\<close> is \<open>None\<close>);
  \<^verbatim>\<open>worker\<close> is the worker of this call and \<^verbatim>\<open>recorder\<close> the \<^verbatim>\<open>MediaRecorder\<close>;
  \<^verbatim>\<open>audioTrack\<close> says whether an audio stream was extracted;
  \<^verbatim>\<open>seeks\<close> lists the assignments to \<^verbatim>\<open>videoClone.currentTime\<close> with their frame
  index, \<^verbatim>\<open>posted\<close> the frames sent to the worker, \<^verbatim>\<open>pushed\<close> the frames put on the
  output canvas (the one the recorder captures);
  \<^verbatim>\<open>blob\<close> is the type of the blob built in \<^verbatim>\<open>onstop\<close>, \<^verbatim>\<open>download\<close> the
  \<^verbatim>\<open>download\<close> attribute of the anchor that is clicked.
\<close>

record job =
  exporting :: bool
  exportProgress :: "rat option"
  emitted :: "rat option list"
  worker :: worker_state
  recorder :: recorder_state
  audioTrack :: bool
  seeks :: "(nat \<times> rat) list"
  posted :: "nat list"
  pushed :: "nat list"
  blob :: "string option"
  download :: "string option"
  toasts :: "toast list"

text \<open>The state before a call: \<^verbatim>\<open>useState(false)\<close>, \<^verbatim>\<open>useState(null)\<close>, nothing done.\<close>

definition idle :: job where
  "idle = \<lparr>exporting = False, exportProgress = None, emitted = [], worker = NoWorker,
            recorder = NoRecorder, audioTrack = False, seeks = [], posted = [], pushed = [],
            blob = None, download = None, toasts = []\<rparr>"

definition setExporting :: "bool \<Rightarrow> job \<Rightarrow> job" where
  "setExporting b s = s\<lparr>exporting := b\<rparr>"

definition setExportProgress :: "rat option \<Rightarrow> job \<Rightarrow> job" where
  "setExportProgress v s = s\<lparr>exportProgress := v, emitted := emitted s @ [v]\<rparr>"

text \<open>How a block of the function ends: normally, by a throw, or never.\<close>

datatype completion = Normal | Thrown | Pending

text \<open>How a call of \<^verbatim>\<open>exportVideo\<close> ends.\<close>

datatype outcome = NotStarted | ReturnedEarly | Complete | Failed | Suspended

subsection \<open>The frame loop\<close>

text \<open>\<^verbatim>\<open>const totalFrames = Math.ceil(duration * fps);\<close>\<close>

definition totalFrames :: "editor \<Rightarrow> platform \<Rightarrow> int" where
  "totalFrames ed pf = \<lceil>duration pf * of_nat (fps ed)\<rceil>"

text \<open>
  \<^verbatim>\<open>const frameInterval = 1 / fps;\<close> For \<open>fps = 0\<close> JavaScript gives \<^verbatim>\<open>Infinity\<close> and
  HOL gives 0; then \<^verbatim>\<open>totalFrames\<close> is 0 and the loop never reads the value.
\<close>

definition frameInterval :: "editor \<Rightarrow> rat" where
  "frameInterval ed = 1 / of_nat (fps ed)"

text \<open>\<^verbatim>\<open>const progress = ((i + 1) / totalFrames) * 100;\<close>\<close>

definition frameProgress :: "int \<Rightarrow> nat \<Rightarrow> rat" where
  "frameProgress nframes i = (of_nat (i + 1) / of_int nframes) * 100"

text \<open>
  The body of the loop after the \<^verbatim>\<open>break\<close> test, for frame \<open>i\<close> at
  \<^verbatim>\<open>currentTime\<close>: seek, sample, filter, put, report progress.
\<close>

definition frameStep :: "platform \<Rightarrow> int \<Rightarrow> nat \<Rightarrow> rat \<Rightarrow> job \<Rightarrow> completion \<times> job" where
  "frameStep pf nframes i currentTime s =
     (let s1 = s\<lparr>seeks := seeks s @ [(i, currentTime)]\<rparr>
      in case frameResponse pf i of
           SeekNeverFires \<Rightarrow> (Pending, s1)
         | DrawThrows \<Rightarrow> (Thrown, s1)
         | WorkerNeverReplies \<Rightarrow> (Pending, s1\<lparr>posted := posted s1 @ [i]\<rparr>)
         | ImageDataThrows \<Rightarrow> (Thrown, s1\<lparr>posted := posted s1 @ [i]\<rparr>)
         | FrameOk \<Rightarrow>
             (Normal,
              setExportProgress (Some (frameProgress nframes i))
                (s1\<lparr>posted := posted s1 @ [i], pushed := pushed s1 @ [i]\<rparr>)))"

text \<open>
  \<^verbatim>\<open>for (let i = 0; i < totalFrames; i++) { const currentTime = i * frameInterval;
  if (currentTime > duration) break; ... }\<close>, from index \<open>i\<close> on.
\<close>

function exportLoop :: "editor \<Rightarrow> platform \<Rightarrow> int \<Rightarrow> nat \<Rightarrow> job \<Rightarrow> completion \<times> job" where
  "exportLoop ed pf nframes i s =
     (if int i < nframes then
        (if of_nat i * frameInterval ed > duration pf then (Normal, s)
         else (case frameStep pf nframes i (of_nat i * frameInterval ed) s of
                 (Normal, s') \<Rightarrow> exportLoop ed pf nframes (Suc i) s'
               | (Thrown, s') \<Rightarrow> (Thrown, s')
               | (Pending, s') \<Rightarrow> (Pending, s')))
      else (Normal, s))"
  by pat_completeness auto
termination
  by (relation "measure (\<lambda>(ed, pf, nframes, i, s). nat (nframes - int i))") auto

declare exportLoop.simps [simp del]

subsection \<open>exportVideo\<close>

text \<open>
  \<^verbatim>\<open>videoUrl\<close> is \<^verbatim>\<open>videoFile ? URL.createObjectURL(videoFile) : null\<close>: present
  exactly when the file is.
\<close>

definition videoUrl :: "editor \<Rightarrow> bool" where
  "videoUrl ed = videoFile ed"

text \<open>
  What follows the loop: \<^verbatim>\<open>mediaRecorder.stop()\<close>, whose \<^verbatim>\<open>onstop\<close> builds the
  blob, and the download through the anchor if there is one.
\<close>

definition finishExport :: "editor \<Rightarrow> job \<Rightarrow> job" where
  "finishExport ed s =
     (let s1 = s\<lparr>recorder := Inactive, blob := Some (blobType (format ed))\<rparr>
      in if downloadRefCurrent ed
         then s1\<lparr>download := Some (downloadName (vfilter ed) (resolution ed) (fps ed) (format ed)),
                 toasts := toasts s1 @ [ExportComplete]\<rparr>
         else s1)"

text \<open>
  The \<^verbatim>\<open>try\<close> block. The three \<^verbatim>\<open>return\<close>s (no 2d context for either canvas, no
  \<^verbatim>\<open>videoUrl\<close>) come before the recorder exists; a failure of the audio extraction is
  caught and only logged; \<^verbatim>\<open>new MediaRecorder\<close> throws on a mime type it does not
  support.
\<close>

definition exportBody :: "editor \<Rightarrow> platform \<Rightarrow> job \<Rightarrow> outcome \<times> job" where
  "exportBody ed pf s =
     (if \<not> tempCtx pf then (ReturnedEarly, s)
      else if \<not> outputCtx pf then (ReturnedEarly, s)
      else if \<not> videoUrl ed then (ReturnedEarly, s)
      else (let s1 = s\<lparr>audioTrack := audioDecodes pf\<rparr>
            in if \<not> recorderSupported pf then (Failed, s1)
               else (case exportLoop ed pf (totalFrames ed pf) 0 (s1\<lparr>recorder := Recording\<rparr>) of
                       (Normal, s2) \<Rightarrow> (Complete, finishExport ed s2)
                     | (Thrown, s2) \<Rightarrow> (Failed, s2)
                     | (Pending, s2) \<Rightarrow> (Suspended, s2))))"

text \<open>The \<^verbatim>\<open>catch\<close> block: the error toast.\<close>

definition catchError :: "job \<Rightarrow> job" where
  "catchError s = s\<lparr>toasts := toasts s @ [ExportFailed]\<rparr>"

text \<open>
  The \<^verbatim>\<open>finally\<close> block:
  \<^verbatim>\<open>setExporting(false); setExportProgress(null); worker.terminate();\<close>
\<close>

definition finallyBlock :: "job \<Rightarrow> job" where
  "finallyBlock s = (setExportProgress None (setExporting False s))\<lparr>worker := WorkerTerminated\<rparr>"

text \<open>
  What precedes the \<^verbatim>\<open>try\<close>:
  \<^verbatim>\<open>setExporting(true); setExportProgress(0); const worker = initWorker();\<close>
\<close>

definition startExport :: "job \<Rightarrow> job" where
  "startExport s = (setExportProgress (Some 0) (setExporting True s))\<lparr>worker := WorkerRunning\<rparr>"

text \<open>
  \<^verbatim>\<open>exportVideo\<close>: the guard, the start, then \<^verbatim>\<open>try\<close>/\<^verbatim>\<open>catch\<close>/\<^verbatim>\<open>finally\<close>.
  A call that stays pending at an \<^verbatim>\<open>await\<close> never reaches \<^verbatim>\<open>finally\<close>.
\<close>

definition exportVideo :: "editor \<Rightarrow> platform \<Rightarrow> outcome \<times> job" where
  "exportVideo ed pf =
     (if \<not> videoFile ed \<or> \<not> videoRefCurrent ed then (NotStarted, idle)
      else (case exportBody ed pf (startExport idle) of
              (Suspended, s) \<Rightarrow> (Suspended, s)
            | (Failed, s) \<Rightarrow> (Failed, finallyBlock (catchError s))
            | (oc, s) \<Rightarrow> (oc, finallyBlock s)))"


text \<open>The numbers among the emitted progress values, in order.\<close>

definition progressValues :: "job \<Rightarrow> rat list" where
  "progressValues s = [v. Some v \<leftarrow> emitted s]"

subsection \<open>The ffmpeg worker and its listener on the main thread\<close>

text \<open>
  A message of the ffmpeg worker: \<^verbatim>\<open>{ progress }\<close> from the \<^verbatim>\<open>progress\<close> event of
  ffmpeg, or the last one, \<^verbatim>\<open>{ url, progress: 100 }\<close>.
\<close>

record message =
  progress :: rat
  url :: bool

text \<open>
  The messages the listener of \<^verbatim>\<open>ffmpeg.worker.ts\<close> posts for one file, given the
  ratios ffmpeg reports while \<^verbatim>\<open>exec\<close> runs.
\<close>

definition workerMessages :: "rat list \<Rightarrow> message list" where
  "workerMessages ratios =
     map (\<lambda>r. \<lparr>progress = r, url = False\<rparr>) ratios @ [\<lparr>progress = 100, url = True\<rparr>]"

text \<open>
  \<^verbatim>\<open>workerRef.current.onmessage\<close>: the arguments of \<^verbatim>\<open>setProgress\<close> for one message:
  \<^verbatim>\<open>event.data.progress * 100\<close>, then \<^verbatim>\<open>null\<close> if the message has a url.
\<close>

definition onWorkerMessage :: "message \<Rightarrow> rat option list" where
  "onWorkerMessage m = Some (progress m * 100) # (if url m then [None] else [])"

subsection \<open>Notions used in the statements\<close>

text \<open>
  The state in which the frame loop is entered: the job started, the audio extracted or
  not, the recorder recording.
\<close>

definition loopEntry :: "platform \<Rightarrow> job" where
  "loopEntry pf = (startExport idle)\<lparr>audioTrack := audioDecodes pf, recorder := Recording\<rparr>"

text \<open>The progress value reported when \<open>j\<close> of \<open>nframes\<close> frames are done.\<close>

definition percentOf :: "int \<Rightarrow> nat \<Rightarrow> rat" where
  "percentOf nframes j = of_nat j / of_int nframes * 100"

text \<open>
  The invariant of the loop on the progress values: before frame \<open>k\<close>, the values
  emitted are those of \<open>0, \<dots>, k\<close> frames done, and \<open>k\<close> frames are on the output.
\<close>

definition progInv :: "int \<Rightarrow> nat \<Rightarrow> job \<Rightarrow> bool" where
  "progInv nframes k s \<longleftrightarrow>
     progressValues s = map (percentOf nframes) [0..<Suc k] \<and> length (pushed s) = k
     \<and> (k = 0 \<or> int k \<le> nframes)"

subsection \<open>Sample inputs\<close>

text \<open>
  The editor in its initial state (no filter, 30 fps, 720p, webm, 16 by 9) once a file
  is chosen and the component is mounted.
\<close>

definition sampleEditor :: editor where
  "sampleEditor = \<lparr>videoFile = True, videoRefCurrent = True, downloadRefCurrent = True,
     vfilter = FilterNone, fps = 30, resolution = R720p, format = Webm,
     videoWidth = 16, videoHeight = 9\<rparr>"

text \<open>A platform on which nothing fails, for a video of the given duration.\<close>

definition samplePlatform :: "rat \<Rightarrow> platform" where
  "samplePlatform d = \<lparr>duration = d, tempCtx = True, outputCtx = True, audioDecodes = True,
     recorderSupported = True, frameResponse = (\<lambda>i. FrameOk), cancelRequestedAt = None\<rparr>"

section \<open>Properties\<close>

subsection \<open>Bytes and kernels\<close>

lemma byte_le: "unat (x::byte) \<le> 255"
  using unsigned_less[of x, where 'a=nat] by simp

lemma luma_range: "0 \<le> luma p \<and> luma p \<le> 255"
proof -
  define r g b :: rat where "r = of_nat (unat (red p))" and "g = of_nat (unat (green p))" and "b = of_nat (unat (blue p))"
  have "unat (red p) \<le> 255" "unat (green p) \<le> 255" "unat (blue p) \<le> 255" by (rule byte_le)+
  hence "r \<le> 255" "g \<le> 255" "b \<le> 255"
    unfolding r_def g_def b_def by (metis of_nat_le_iff of_nat_numeral)+
  moreover have "0 \<le> r" "0 \<le> g" "0 \<le> b" unfolding r_def g_def b_def by (rule of_nat_0_le_iff)+
  moreover have "luma p = 299 / 1000 * r + 587 / 1000 * g + 114 / 1000 * b"
    unfolding luma_def r_def g_def b_def by (rule refl)
  ultimately show ?thesis by linarith
qed

lemma toByte_luma: "uint (toByte (luma p)) = round (luma p)"
proof -
  have "0 \<le> round (luma p)" using luma_range[of p] by (simp add: round_def)
  moreover have "round (luma p) \<le> 255" using luma_range[of p] round_mono[of "luma p" 255] by simp
  ultimately show ?thesis unfolding toByte_def
    by (simp add: uint_word_of_int take_bit_int_eq_self)
qed

lemma invert_invert: "invert (invert p) = p"
  by (simp add: invert_def)

lemma unat_invert: "unat (255 - x :: byte) = 255 - unat x"
  using byte_le[of x] by (simp add: unat_sub_if' word_le_nat_alt)

subsection \<open>The frame loop\<close>

text \<open>
  One unfolding of the loop for each way an iteration goes, and the rule that follows:
  a property \<open>P\<close> kept by every completed frame holds when the loop is left.
\<close>

lemma exportLoop_leave:
  "\<not> int i < T \<or> duration pf < of_nat i * frameInterval ed \<Longrightarrow> exportLoop ed pf T i s = (Normal, s)"
  by (auto simp: exportLoop.simps [of ed pf T i s])

lemma exportLoop_next:
  "\<lbrakk>int i < T; \<not> duration pf < of_nat i * frameInterval ed;
    frameStep pf T i (of_nat i * frameInterval ed) s = (Normal, s1)\<rbrakk>
   \<Longrightarrow> exportLoop ed pf T i s = exportLoop ed pf T (Suc i) s1"
  by (simp add: exportLoop.simps [of ed pf T i s])

lemma exportLoop_stop:
  "\<lbrakk>int i < T; \<not> duration pf < of_nat i * frameInterval ed;
    frameStep pf T i (of_nat i * frameInterval ed) s = (c, s1); c \<noteq> Normal\<rbrakk>
   \<Longrightarrow> exportLoop ed pf T i s = (c, s1)"
  by (cases c) (simp_all add: exportLoop.simps [of ed pf T i s])

lemma exportLoop_rule:
  assumes run: "exportLoop ed pf T i s = (c, s')"
    and init: "P i s"
    and step: "\<And>k s s1. \<lbrakk>P k s; int k < T; \<not> duration pf < of_nat k * frameInterval ed;
                 frameStep pf T k (of_nat k * frameInterval ed) s = (Normal, s1)\<rbrakk> \<Longrightarrow> P (Suc k) s1"
    and leave: "\<And>k s. \<lbrakk>P k s; \<not> int k < T \<or> duration pf < of_nat k * frameInterval ed\<rbrakk> \<Longrightarrow> Q Normal s"
    and stop: "\<And>k s c s1. \<lbrakk>P k s; int k < T; \<not> duration pf < of_nat k * frameInterval ed;
                 frameStep pf T k (of_nat k * frameInterval ed) s = (c, s1); c \<noteq> Normal\<rbrakk> \<Longrightarrow> Q c s1"
  shows "Q c s'"
  using run init
proof (induction "nat (T - int i)" arbitrary: i s)
  case 0
  then have "\<not> int i < T" by simp
  with "0.prems" exportLoop_leave [of i T pf ed s] leave [of i s] show ?case by auto
next
  case (Suc n)
  show ?case
  proof (cases "int i < T \<and> \<not> duration pf < of_nat i * frameInterval ed")
    case False
    with Suc.prems exportLoop_leave [of i T pf ed s] leave [of i s] show ?thesis by auto
  next
    case True
    obtain c1 s1 where fs: "frameStep pf T i (of_nat i * frameInterval ed) s = (c1, s1)"
      by (cases "frameStep pf T i (of_nat i * frameInterval ed) s") 
    show ?thesis
    proof (cases "c1 = Normal")
      case False
      with True fs Suc.prems exportLoop_stop [of i T pf ed s c1 s1] stop [of i s c1 s1]
      show ?thesis by auto
    next
      case Normal: True
      have "n = nat (T - int (Suc i))" using Suc.hyps(2) by simp
      moreover have "exportLoop ed pf T (Suc i) s1 = (c, s')"
        using exportLoop_next [of i T pf ed s s1] True fs Normal Suc.prems(1) by simp
      moreover have "P (Suc i) s1"
        using step [of i s s1] Suc.prems(2) True fs Normal by blast
      ultimately show ?thesis by (rule Suc.hyps(1))
    qed
  qed
qed


lemma frameStep_fields:
  assumes "frameStep pf T k t s = (c, s1)"
  shows "seeks s1 = seeks s @ [(k, t)]"
    and "pushed s1 = (if c = Normal then pushed s @ [k] else pushed s)"
    and "emitted s1 = (if c = Normal then emitted s @ [Some (frameProgress T k)] else emitted s)"
    and "c = Normal \<longleftrightarrow> frameResponse pf k = FrameOk"
    and "blob s1 = blob s" and "download s1 = download s" and "toasts s1 = toasts s"
    and "recorder s1 = recorder s" and "worker s1 = worker s" and "exporting s1 = exporting s"
    and "audioTrack s1 = audioTrack s"
  using assms
  by (auto simp: frameStep_def setExportProgress_def Let_def split: frame_response.splits)




lemma below_ceiling_time:
  assumes "0 < n" and "int k < \<lceil>d * of_nat n\<rceil>"
  shows "of_nat k * (1 / of_nat n) < (d::rat)"
proof -
  have "of_int (int k) < d * of_nat n" using assms(2) by (simp only: less_ceiling_iff)
  then have "of_nat k < d * of_nat n" by simp
  moreover have "(0::rat) < of_nat n" using assms(1) by simp
  ultimately show ?thesis by (simp add: field_simps)
qed


lemma exportLoop_all_frames:
  assumes run: "exportLoop ed pf (totalFrames ed pf) 0 s = (Normal, s')"
    and fps: "0 < fps ed" and s: "seeks s = []" "pushed s = []"
  shows "int (length (seeks s')) = max 0 (totalFrames ed pf)"
    and "pushed s' = [0..<nat (totalFrames ed pf)]"
proof -
  let ?T = "totalFrames ed pf"
  let ?P = "\<lambda>k (s::job). length (seeks s) = k \<and> pushed s = [0..<k] \<and> (int k \<le> ?T \<or> k = 0)"
  let ?Q = "\<lambda>c (s::job). c = Normal \<longrightarrow>
              int (length (seeks s)) = max 0 ?T \<and> pushed s = [0..<nat ?T]"
  have "?Q Normal s'"
  proof (rule exportLoop_rule [where P = ?P and Q = ?Q, OF run])
    show "?P 0 s" using s by simp
  next
    fix k s s1
    assume "?P k s" and "int k < ?T"
      and "frameStep pf ?T k (of_nat k * frameInterval ed) s = (Normal, s1)"
    then show "?P (Suc k) s1" by (auto simp: frameStep_fields(1,2))
  next
    fix k s
    assume P: "?P k s" and "\<not> int k < ?T \<or> duration pf < of_nat k * frameInterval ed"
    moreover have "int k < ?T \<Longrightarrow> of_nat k * frameInterval ed < duration pf"
      using below_ceiling_time [OF fps, of k "duration pf"]
      by (simp add: totalFrames_def frameInterval_def)
    ultimately have "\<not> int k < ?T" by auto
    with P have "int k = ?T \<or> (k = 0 \<and> ?T \<le> 0)" by auto
    then have "nat ?T = k" "max 0 ?T = int k" by auto
    with P show "?Q Normal s" by simp
  next
    fix k s c s1
    assume "c \<noteq> Normal"
    then show "?Q c s1" by simp
  qed
  then show "int (length (seeks s')) = max 0 (totalFrames ed pf)"
    and "pushed s' = [0..<nat (totalFrames ed pf)]" by simp_all
qed

lemma exportLoop_fault_free:
  assumes run: "exportLoop ed pf T i s = (c, s')"
    and ok: "\<forall>k. frameResponse pf k = FrameOk"
  shows "c = Normal"
proof (rule exportLoop_rule [where P = "\<lambda>k s. True" and Q = "\<lambda>c s. c = Normal", OF run])
  fix k s c s1
  assume "frameStep pf T k (of_nat k * frameInterval ed) s = (c, s1)" and "c \<noteq> Normal"
  with ok show "c = Normal" by (simp add: frameStep_fields(4))
qed simp_all


lemma exportLoop_kept:
  assumes run: "exportLoop ed pf T i s = (c, s')"
  shows "blob s' = blob s \<and> download s' = download s \<and> toasts s' = toasts s \<and> recorder s' = recorder s
         \<and> worker s' = worker s \<and> exporting s' = exporting s \<and> audioTrack s' = audioTrack s"
proof (rule exportLoop_rule [where
      P = "\<lambda>k s0. blob s0 = blob s \<and> download s0 = download s \<and> toasts s0 = toasts s \<and> recorder s0 = recorder s
         \<and> worker s0 = worker s \<and> exporting s0 = exporting s \<and> audioTrack s0 = audioTrack s"
      and Q = "\<lambda>c s0. blob s0 = blob s \<and> download s0 = download s \<and> toasts s0 = toasts s \<and> recorder s0 = recorder s
         \<and> worker s0 = worker s \<and> exporting s0 = exporting s \<and> audioTrack s0 = audioTrack s", OF run])
qed (simp_all add: frameStep_fields)

lemma progressValues_emitted:
  "emitted s1 = emitted s @ [Some v] \<Longrightarrow> progressValues s1 = progressValues s @ [v]"
  "emitted s1 = emitted s @ [None] \<Longrightarrow> progressValues s1 = progressValues s"
  "emitted s1 = emitted s \<Longrightarrow> progressValues s1 = progressValues s"
  by (simp_all add: progressValues_def)

lemma sorted_map_upt:
  fixes f :: "nat \<Rightarrow> rat"
  assumes "\<And>i j. i \<le> j \<Longrightarrow> f i \<le> f j"
  shows "sorted (map f [0..<m])"
  using assms by (simp add: sorted_iff_nth_mono del: upt_Suc)

lemma percent_list:
  assumes "n = 0 \<or> int n \<le> T"
  shows "sorted (map (percentOf T) [0..<Suc n])"
    and "\<forall>v \<in> set (map (percentOf T) [0..<Suc n]). 0 \<le> v \<and> v \<le> 100"
    and "0 < n \<Longrightarrow> int n = T \<Longrightarrow> last (map (percentOf T) [0..<Suc n]) = 100"
proof -
  show "sorted (map (percentOf T) [0..<Suc n])"
  proof (cases "n = 0")
    case True then show ?thesis by simp
  next
    case False
    with assms have T: "0 < T" by auto
    have "\<And>i j. i \<le> j \<Longrightarrow> percentOf T i \<le> percentOf T j"
      using T by (simp add: percentOf_def divide_right_mono)
    then show ?thesis
      by (rule sorted_map_upt)
  qed
  show "\<forall>v \<in> set (map (percentOf T) [0..<Suc n]). 0 \<le> v \<and> v \<le> 100"
  proof (cases "n = 0")
    case True then show ?thesis by (simp add: percentOf_def)
  next
    case False
    with assms have T: "0 < T" and n: "int n \<le> T" by auto
    { fix j assume "j \<le> n"
      with n have "int j \<le> T" by simp
      then have "(of_nat j :: rat) \<le> of_int T" by (metis of_int_le_iff of_int_of_nat_eq)
      with T have "0 \<le> percentOf T j \<and> percentOf T j \<le> 100"
        by (simp add: percentOf_def field_simps) }
    then show ?thesis by auto
  qed
  show "last (map (percentOf T) [0..<Suc n]) = 100" if "0 < n" "int n = T"
  proof -
    have "last (map (percentOf T) [0..<Suc n]) = percentOf T n" by (simp add: last_map)
    also have "\<dots> = 100" using that by (auto simp: percentOf_def)
    finally show ?thesis .
  qed
qed

lemma progInv_step:
  assumes P: "progInv T k s" and k: "int k < T"
    and fs: "frameStep pf T k t s = (Normal, s1)"
  shows "progInv T (Suc k) s1"
proof -
  have "progressValues s1 = progressValues s @ [frameProgress T k]"
    by (rule progressValues_emitted(1)) (simp add: frameStep_fields(3) [OF fs])
  moreover have "frameProgress T k = percentOf T (Suc k)"
    by (simp add: frameProgress_def percentOf_def)
  moreover have "pushed s1 = pushed s @ [k]" using frameStep_fields(2) [OF fs] by simp
  moreover have "map (percentOf T) [0..<Suc (Suc k)] = map (percentOf T) [0..<Suc k] @ [percentOf T (Suc k)]"
    by simp
  moreover have "int (Suc k) \<le> T" using k by simp
  moreover have "progressValues s = map (percentOf T) [0..<Suc k]" "length (pushed s) = k"
    using P by (simp_all add: progInv_def)
  ultimately show ?thesis unfolding progInv_def by (simp only: length_append list.size) simp
qed

lemma progInv_stop:
  assumes P: "progInv T k s"
    and fs: "frameStep pf T k t s = (c, s1)" and c: "c \<noteq> Normal"
  shows "progInv T (length (pushed s1)) s1"
proof -
  have "progressValues s1 = progressValues s"
    by (rule progressValues_emitted(3)) (simp add: frameStep_fields(3) [OF fs] c)
  moreover have "pushed s1 = pushed s" using frameStep_fields(2) [OF fs] c by simp
  moreover have "length (pushed s) = k" using P by (simp add: progInv_def)
  ultimately show ?thesis using P by (simp add: progInv_def)
qed


lemma exportLoop_progress:
  assumes run: "exportLoop ed pf T 0 s = (c, s')" and s: "progInv T 0 s"
  shows "progInv T (length (pushed s')) s'"
proof (rule exportLoop_rule [where P = "progInv T" and Q = "\<lambda>c s. progInv T (length (pushed s)) s", OF run s])
  fix k s s1
  assume "progInv T k s" "int k < T" "frameStep pf T k (of_nat k * frameInterval ed) s = (Normal, s1)"
  then show "progInv T (Suc k) s1" by (rule progInv_step)
next
  fix k s
  assume "progInv T k s"
  then show "progInv T (length (pushed s)) s" by (simp add: progInv_def)
next
  fix k s c s1
  assume "progInv T k s" "frameStep pf T k (of_nat k * frameInterval ed) s = (c, s1)" "c \<noteq> Normal"
  then show "progInv T (length (pushed s1)) s1" by (rule progInv_stop)
qed

lemma loopEntry_fields:
  "seeks (loopEntry pf) = []" "pushed (loopEntry pf) = []" "posted (loopEntry pf) = []"
  "emitted (loopEntry pf) = [Some 0]" "progressValues (loopEntry pf) = [0]"
  "blob (loopEntry pf) = None" "download (loopEntry pf) = None" "toasts (loopEntry pf) = []"
  "worker (loopEntry pf) = WorkerRunning" "exporting (loopEntry pf)"
  by (simp_all add: loopEntry_def startExport_def setExportProgress_def setExporting_def idle_def
      progressValues_def)

lemma finallyBlock_fields:
  "exporting (finallyBlock s) = False" "exportProgress (finallyBlock s) = None"
  "worker (finallyBlock s) = WorkerTerminated" "emitted (finallyBlock s) = emitted s @ [None]"
  "progressValues (finallyBlock s) = progressValues s"
  "seeks (finallyBlock s) = seeks s" "pushed (finallyBlock s) = pushed s" "posted (finallyBlock s) = posted s"
  "blob (finallyBlock s) = blob s" "download (finallyBlock s) = download s" "toasts (finallyBlock s) = toasts s"
  "recorder (finallyBlock s) = recorder s"
  by (simp_all add: finallyBlock_def setExportProgress_def setExporting_def progressValues_def)

lemma finishExport_fields:
  "blob (finishExport ed s) = Some (blobType (format ed))"
  "download (finishExport ed s) =
     (if downloadRefCurrent ed
      then Some (downloadName (vfilter ed) (resolution ed) (fps ed) (format ed)) else download s)"
  "recorder (finishExport ed s) = Inactive"
  "emitted (finishExport ed s) = emitted s" "progressValues (finishExport ed s) = progressValues s"
  "seeks (finishExport ed s) = seeks s" "pushed (finishExport ed s) = pushed s"
  "posted (finishExport ed s) = posted s"
  "toasts (finishExport ed s) = (if downloadRefCurrent ed then toasts s @ [ExportComplete] else toasts s)"
  by (simp_all add: finishExport_def Let_def progressValues_def)

lemma catchError_fields:
  "blob (catchError s) = blob s" "download (catchError s) = download s"
  "emitted (catchError s) = emitted s" "progressValues (catchError s) = progressValues s"
  "seeks (catchError s) = seeks s" "pushed (catchError s) = pushed s" "posted (catchError s) = posted s"
  "toasts (catchError s) = toasts s @ [ExportFailed]"
  by (simp_all add: catchError_def progressValues_def)

lemma exportVideo_cases [case_names not_started early unsupported complete failed suspended]:
  obtains
    "\<not> videoFile ed \<or> \<not> videoRefCurrent ed" "exportVideo ed pf = (NotStarted, idle)"
  | "videoFile ed" "videoRefCurrent ed" "\<not> tempCtx pf \<or> \<not> outputCtx pf"
      "exportVideo ed pf = (ReturnedEarly, finallyBlock (startExport idle))"
  | "videoFile ed" "videoRefCurrent ed" "tempCtx pf" "outputCtx pf" "\<not> recorderSupported pf"
      "exportVideo ed pf =
         (Failed, finallyBlock (catchError ((startExport idle)\<lparr>audioTrack := audioDecodes pf\<rparr>)))"
  | s2 where "videoFile ed" "videoRefCurrent ed" "tempCtx pf" "outputCtx pf" "recorderSupported pf"
      "exportLoop ed pf (totalFrames ed pf) 0 (loopEntry pf) = (Normal, s2)"
      "exportVideo ed pf = (Complete, finallyBlock (finishExport ed s2))"
  | s2 where "videoFile ed" "videoRefCurrent ed" "tempCtx pf" "outputCtx pf" "recorderSupported pf"
      "exportLoop ed pf (totalFrames ed pf) 0 (loopEntry pf) = (Thrown, s2)"
      "exportVideo ed pf = (Failed, finallyBlock (catchError s2))"
  | s2 where "videoFile ed" "videoRefCurrent ed" "tempCtx pf" "outputCtx pf" "recorderSupported pf"
      "exportLoop ed pf (totalFrames ed pf) 0 (loopEntry pf) = (Pending, s2)"
      "exportVideo ed pf = (Suspended, s2)"
proof (cases "\<not> videoFile ed \<or> \<not> videoRefCurrent ed")
  case True
  then show ?thesis using that(1) by (simp add: exportVideo_def)
next
  case started: False
  show ?thesis
  proof (cases "\<not> tempCtx pf \<or> \<not> outputCtx pf")
    case True
    then have "exportBody ed pf (startExport idle) = (ReturnedEarly, startExport idle)"
      by (auto simp: exportBody_def)
    with started True show ?thesis using that(2) by (simp add: exportVideo_def)
  next
    case ctx: False
    show ?thesis
    proof (cases "recorderSupported pf")
      case False
      with started ctx have "exportBody ed pf (startExport idle)
          = (Failed, (startExport idle)\<lparr>audioTrack := audioDecodes pf\<rparr>)"
        by (simp add: exportBody_def videoUrl_def)
      with started ctx False show ?thesis using that(3) by (simp add: exportVideo_def)
    next
      case True
      obtain c s2 where run: "exportLoop ed pf (totalFrames ed pf) 0 (loopEntry pf) = (c, s2)"
        by (cases "exportLoop ed pf (totalFrames ed pf) 0 (loopEntry pf)")
      with started ctx True have body: "exportBody ed pf (startExport idle)
          = (case c of Normal \<Rightarrow> (Complete, finishExport ed s2) | Thrown \<Rightarrow> (Failed, s2)
              | Pending \<Rightarrow> (Suspended, s2))"
        by (simp add: exportBody_def videoUrl_def loopEntry_def Let_def)
      show ?thesis
      proof (cases c)
        case Normal
        with body started ctx True run show ?thesis using that(4) by (simp add: exportVideo_def)
      next
        case Thrown
        with body started ctx True run show ?thesis using that(5) by (simp add: exportVideo_def)
      next
        case Pending
        with body started ctx True run show ?thesis using that(6) by (simp add: exportVideo_def)
      qed
    qed
  qed
qed

lemma string_of_nat_30: "string_of_nat 30 = ''30''"
  by (simp add: string_of_nat.simps digit_char_def)


lemma exportVideo_fault_free:
  assumes "videoFile ed" "videoRefCurrent ed" "tempCtx pf" "outputCtx pf" "recorderSupported pf"
    and ok: "\<forall>k. frameResponse pf k = FrameOk"
  obtains s2 where "exportLoop ed pf (totalFrames ed pf) 0 (loopEntry pf) = (Normal, s2)"
    and "exportVideo ed pf = (Complete, finallyBlock (finishExport ed s2))"
proof (cases ed pf rule: exportVideo_cases)
  case (complete s2) then show ?thesis using that by blast
next
  case (failed s2) with exportLoop_fault_free [OF failed(6) ok] show ?thesis by simp
next
  case (suspended s2) with exportLoop_fault_free [OF suspended(6) ok] show ?thesis by simp
qed (use assms in simp_all)

lemma sample_complete:
  obtains s2 where "exportLoop sampleEditor (samplePlatform d) (totalFrames sampleEditor (samplePlatform d)) 0 (loopEntry (samplePlatform d)) = (Normal, s2)"
    and "exportVideo sampleEditor (samplePlatform d) = (Complete, finallyBlock (finishExport sampleEditor s2))"
  by (rule exportVideo_fault_free [of sampleEditor "samplePlatform d"])
     (simp_all add: sampleEditor_def samplePlatform_def)

subsection \<open>The artifact and the download name\<close>

lemma exportVideo_Complete:
  assumes "exportVideo ed pf = (Complete, s)"
  obtains s2 where "exportLoop ed pf (totalFrames ed pf) 0 (loopEntry pf) = (Normal, s2)"
    and "s = finallyBlock (finishExport ed s2)"
    and "videoFile ed" "videoRefCurrent ed" "tempCtx pf" "outputCtx pf" "recorderSupported pf"
proof (cases ed pf rule: exportVideo_cases)
  case (complete s2)
  with assms that show ?thesis by simp
qed (use assms in simp_all)

lemma exportVideo_Complete_artifact:
  assumes "exportVideo ed pf = (Complete, s)"
  shows "blob s = Some (blobType (format ed))"
    and "download s = (if downloadRefCurrent ed
           then Some (downloadName (vfilter ed) (resolution ed) (fps ed) (format ed)) else None)"
proof -
  obtain s2 where run: "exportLoop ed pf (totalFrames ed pf) 0 (loopEntry pf) = (Normal, s2)"
    and s: "s = finallyBlock (finishExport ed s2)"
    using assms by (rule exportVideo_Complete)
  have "download s2 = None"
    using exportLoop_kept [OF run] by (simp add: loopEntry_fields)
  with s show "blob s = Some (blobType (format ed))"
    and "download s = (if downloadRefCurrent ed
           then Some (downloadName (vfilter ed) (resolution ed) (fps ed) (format ed)) else None)"
    by (simp_all add: finallyBlock_fields finishExport_fields)
qed

text \<open>
  Claim C5, as amended. On a completed export the blob has type \<^verbatim>\<open>video/webm\<close> for
  format webm and \<^verbatim>\<open>video/mp4\<close> for format mp4. If the download anchor is present,
  the suggested name is \<open>{filter}-{resolution}-{fps}fps-video.{format}\<close> for the filters
  sepia, grayscale and invert, and \<open>{resolution}-{fps}fps-video.{format}\<close>, without a
  filter part, for the filter none.
\<close>

theorem export_artifact:
  assumes "exportVideo ed pf = (Complete, s)"
  shows "(format ed = Webm \<longrightarrow> blob s = Some ''video/webm'')
       \<and> (format ed = Mp4 \<longrightarrow> blob s = Some ''video/mp4'')
       \<and> (downloadRefCurrent ed \<and> vfilter ed \<noteq> FilterNone \<longrightarrow>
            download s = Some (filter_str (vfilter ed) @ ''-'' @ resolution_str (resolution ed) @ ''-''
              @ string_of_nat (fps ed) @ ''fps-video.'' @ format_str (format ed)))
       \<and> (downloadRefCurrent ed \<and> vfilter ed = FilterNone \<longrightarrow>
            download s = Some (resolution_str (resolution ed) @ ''-''
              @ string_of_nat (fps ed) @ ''fps-video.'' @ format_str (format ed)))"
  using exportVideo_Complete_artifact [OF assms]
  by (simp add: blobType_def downloadName_def)

text \<open>The theorem of C5 at a sepia export to mp4 of a tenth of a second at 30 fps.\<close>

theorem export_artifact_witness:
  "fst (exportVideo (sampleEditor\<lparr>vfilter := Sepia, format := Mp4\<rparr>) (samplePlatform (1 / 10))) = Complete
   \<and> blob (snd (exportVideo (sampleEditor\<lparr>vfilter := Sepia, format := Mp4\<rparr>) (samplePlatform (1 / 10))))
       = Some ''video/mp4''
   \<and> download (snd (exportVideo (sampleEditor\<lparr>vfilter := Sepia, format := Mp4\<rparr>) (samplePlatform (1 / 10))))
       = Some ''sepia-720p-30fps-video.mp4''"
proof -
  obtain s2 where ev: "exportVideo (sampleEditor\<lparr>vfilter := Sepia, format := Mp4\<rparr>) (samplePlatform (1 / 10))
      = (Complete, finallyBlock (finishExport (sampleEditor\<lparr>vfilter := Sepia, format := Mp4\<rparr>) s2))"
    by (rule exportVideo_fault_free [of "sampleEditor\<lparr>vfilter := Sepia, format := Mp4\<rparr>" "samplePlatform (1 / 10)"])
       (simp_all add: sampleEditor_def samplePlatform_def)
  from export_artifact [OF ev] ev show ?thesis
    by (simp add: sampleEditor_def string_of_nat_30)
qed

text \<open>
  Claim C5 as stated fails for the filter none: the export completes and the name is
  \<^verbatim>\<open>720p-30fps-video.webm\<close>, while the pattern of the claim gives
  \<^verbatim>\<open>none-720p-30fps-video.webm\<close>.
\<close>

theorem export_name_counterexample:
  "fst (exportVideo sampleEditor (samplePlatform (1 / 10))) = Complete
   \<and> download (snd (exportVideo sampleEditor (samplePlatform (1 / 10)))) = Some ''720p-30fps-video.webm''
   \<and> filter_str (vfilter sampleEditor) @ ''-'' @ resolution_str (resolution sampleEditor) @ ''-''
       @ string_of_nat (fps sampleEditor) @ ''fps-video.'' @ format_str (format sampleEditor)
      = ''none-720p-30fps-video.webm''"
proof -
  obtain s2 where ev: "exportVideo sampleEditor (samplePlatform (1 / 10))
      = (Complete, finallyBlock (finishExport sampleEditor s2))"
    by (rule sample_complete)
  from exportVideo_Complete_artifact(2) [OF ev] ev show ?thesis
    by (simp add: sampleEditor_def string_of_nat_30 downloadName_def)
qed

text \<open>The earlier variant of the component names the file as the current one does for webm.\<close>

lemma downloadName_webm_eq: "downloadName_webm f res n = downloadName f res n Webm"
  by (simp add: downloadName_webm_def downloadName_def)

subsection \<open>Cleanup on every exit\<close>

text \<open>
  Claim C10. A call of \<^verbatim>\<open>exportVideo\<close> that passes the guard (a file and a video
  element are present) and exits, by normal completion, by an early \<^verbatim>\<open>return\<close> or by
  a thrown error, leaves the worker of the call terminated, \<^verbatim>\<open>exporting\<close> false and
  \<^verbatim>\<open>exportProgress\<close> null.
\<close>

theorem export_cleanup:
  assumes "videoFile ed" "videoRefCurrent ed" "exportVideo ed pf = (oc, s)" "oc \<noteq> Suspended"
  shows "worker s = WorkerTerminated \<and> \<not> exporting s \<and> exportProgress s = None"
proof (cases ed pf rule: exportVideo_cases)
  case not_started with assms show ?thesis by simp
next
  case early with assms show ?thesis by (auto simp: finallyBlock_fields)
next
  case unsupported with assms show ?thesis by (auto simp: finallyBlock_fields)
next
  case complete with assms show ?thesis by (auto simp: finallyBlock_fields)
next
  case failed with assms show ?thesis by (auto simp: finallyBlock_fields)
next
  case suspended with assms show ?thesis by simp
qed

text \<open>The theorem of C10 at an export whose recorder rejects the mime type (a thrown error).\<close>

theorem export_cleanup_witness:
  "videoFile sampleEditor \<and> videoRefCurrent sampleEditor
   \<and> fst (exportVideo sampleEditor ((samplePlatform 1)\<lparr>recorderSupported := False\<rparr>)) = Failed
   \<and> worker (snd (exportVideo sampleEditor ((samplePlatform 1)\<lparr>recorderSupported := False\<rparr>))) = WorkerTerminated
   \<and> \<not> exporting (snd (exportVideo sampleEditor ((samplePlatform 1)\<lparr>recorderSupported := False\<rparr>)))
   \<and> exportProgress (snd (exportVideo sampleEditor ((samplePlatform 1)\<lparr>recorderSupported := False\<rparr>))) = None"
proof -
  have ev: "fst (exportVideo sampleEditor ((samplePlatform 1)\<lparr>recorderSupported := False\<rparr>)) = Failed"
    by (simp add: exportVideo_def exportBody_def videoUrl_def sampleEditor_def samplePlatform_def)
  have "videoFile sampleEditor" "videoRefCurrent sampleEditor" by (simp_all add: sampleEditor_def)
  from export_cleanup [OF this prod.collapse [symmetric]] ev show ?thesis
    by (simp add: sampleEditor_def)
qed

text \<open>A call that stays pending at an \<^verbatim>\<open>await\<close> has not cleaned up.\<close>

lemma exportVideo_Suspended_exporting:
  assumes "exportVideo ed pf = (Suspended, s)"
  shows "exporting s \<and> worker s = WorkerRunning"
proof (cases ed pf rule: exportVideo_cases)
  case (suspended s2)
  with assms exportLoop_kept [OF suspended(6)] show ?thesis by (simp add: loopEntry_fields)
qed (use assms in simp_all)

subsection \<open>The kernels of the filter worker\<close>

lemma onmessage_kernels:
  "onmessage frame Grayscale = map grayscale frame"
  "onmessage frame Invert = map invert frame"
  "onmessage frame Sepia = map sepia frame"
  "onmessage frame FilterNone = frame"
  by (simp_all add: onmessage_def canvasDraw_def [abs_def])

text \<open>
  Claim C7. For every pixel \<open>(R, G, B, A)\<close> the grayscale filter gives
  \<open>(luma, luma, luma, A)\<close> with \<open>luma = round (0.299 R + 0.587 G + 0.114 B)\<close> (the
  clamp never cuts, the luma of bytes being within 0 and 255), so every pixel of a frame
  the worker filters with grayscale has \<open>R = G = B\<close>. The worker selects the filter by
  \<^verbatim>\<open>'grayscale(100%)'\<close>, the ffmpeg worker by \<^verbatim>\<open>format=gray\<close>; the kernel is the
  spec's.
\<close>

theorem grayscale_kernel:
  "uint (red (grayscale p))
     = round (299 / 1000 * of_nat (unat (red p)) + 587 / 1000 * of_nat (unat (green p))
              + 114 / 1000 * of_nat (unat (blue p)) :: rat)
   \<and> green (grayscale p) = red (grayscale p) \<and> blue (grayscale p) = red (grayscale p)
   \<and> alpha (grayscale p) = alpha p
   \<and> ctxFilter Grayscale = ''grayscale(100%)'' \<and> filterCmd Grayscale = ''format=gray''
   \<and> onmessage frame Grayscale = map grayscale frame
   \<and> (\<forall>q \<in> set (onmessage frame Grayscale). red q = green q \<and> green q = blue q)"
proof -
  have "uint (red (grayscale p)) = round (luma p)"
    by (simp add: grayscale_def toByte_luma)
  then show ?thesis
    by (auto simp: luma_def onmessage_kernels filterCmd_def) (simp_all add: grayscale_def)
qed

text \<open>The theorem of C7 at the pixel (200, 100, 50, 255), whose luma is 124.2.\<close>

theorem grayscale_kernel_witness:
  "onmessage [\<lparr>red = 200, green = 100, blue = 50, alpha = 255\<rparr>] Grayscale
     = [\<lparr>red = 124, green = 124, blue = 124, alpha = 255\<rparr>]"
proof -
  have "299 / 1000 * of_nat (unat (200 :: byte)) + 587 / 1000 * of_nat (unat (100 :: byte))
              + 114 / 1000 * of_nat (unat (50 :: byte)) = (621 / 5 :: rat)"
    by simp
  moreover have "round (621 / 5 :: rat) = 124" by code_simp
  ultimately have r: "round (299 / 1000 * of_nat (unat (200 :: byte)) + 587 / 1000 * of_nat (unat (100 :: byte))
              + 114 / 1000 * of_nat (unat (50 :: byte)) :: rat) = 124"
    by (simp only:)
  have "red (grayscale \<lparr>red = 200, green = 100, blue = 50, alpha = 255\<rparr>) = 124"
    using grayscale_kernel [of "\<lparr>red = 200, green = 100, blue = 50, alpha = 255\<rparr>" "[]"] r
    by (simp add: word_uint_eq_iff)
  with grayscale_kernel [of "\<lparr>red = 200, green = 100, blue = 50, alpha = 255\<rparr>"
      "[\<lparr>red = 200, green = 100, blue = 50, alpha = 255\<rparr>]"]
  show ?thesis by (simp add: pixel.equality)
qed

text \<open>
  Claim C8. The invert filter maps \<open>(R, G, B, A)\<close> to \<open>(255 - R, 255 - G, 255 - B, A)\<close>
  and is its own inverse, on pixels and on the frames the worker filters. The worker
  selects the filter by \<^verbatim>\<open>'invert(100%)'\<close>, the ffmpeg worker by \<^verbatim>\<open>negate\<close>; the
  kernel is the spec's.
\<close>

theorem invert_kernel:
  "unat (red (invert p)) = 255 - unat (red p) \<and> unat (green (invert p)) = 255 - unat (green p)
   \<and> unat (blue (invert p)) = 255 - unat (blue p) \<and> alpha (invert p) = alpha p
   \<and> invert (invert p) = p
   \<and> ctxFilter Invert = ''invert(100%)'' \<and> filterCmd Invert = ''negate''
   \<and> onmessage frame Invert = map invert frame
   \<and> onmessage (onmessage frame Invert) Invert = frame"
proof -
  have "unat (red (invert p)) = 255 - unat (red p)" "unat (green (invert p)) = 255 - unat (green p)"
    "unat (blue (invert p)) = 255 - unat (blue p)" "alpha (invert p) = alpha p"
    by (simp_all add: invert_def unat_invert)
  moreover have "map invert (map invert frame) = frame"
    by (simp add: o_def invert_invert)
  ultimately show ?thesis
    by (simp add: invert_invert onmessage_kernels filterCmd_def)
qed

text \<open>The theorem of C8 at the pixel (200, 100, 0, 7), there and back.\<close>

theorem invert_kernel_witness:
  "onmessage [\<lparr>red = 200, green = 100, blue = 0, alpha = 7\<rparr>] Invert
     = [\<lparr>red = 55, green = 155, blue = 255, alpha = 7\<rparr>]
   \<and> onmessage [\<lparr>red = 55, green = 155, blue = 255, alpha = 7\<rparr>] Invert
     = [\<lparr>red = 200, green = 100, blue = 0, alpha = 7\<rparr>]"
  using invert_kernel [of "\<lparr>red = 200, green = 100, blue = 0, alpha = 7\<rparr>"
      "[\<lparr>red = 200, green = 100, blue = 0, alpha = 7\<rparr>]"]
    invert_kernel [of "\<lparr>red = 55, green = 155, blue = 255, alpha = 7\<rparr>"
      "[\<lparr>red = 55, green = 155, blue = 255, alpha = 7\<rparr>]"]
  by (simp add: invert_def)

subsection \<open>Canvas dimensions\<close>







subsection \<open>Frame requests\<close>

lemma startExport_fields:
  "seeks (startExport idle) = []" "pushed (startExport idle) = []"
  "progressValues (startExport idle) = [0]" "emitted (startExport idle) = [Some 0]"
  "blob (startExport idle) = None" "toasts (startExport idle) = []"
  "seeks ((startExport idle)\<lparr>audioTrack := a\<rparr>) = []" "pushed ((startExport idle)\<lparr>audioTrack := a\<rparr>) = []"
  "progressValues ((startExport idle)\<lparr>audioTrack := a\<rparr>) = [0]"
  "emitted ((startExport idle)\<lparr>audioTrack := a\<rparr>) = [Some 0]"
  "blob ((startExport idle)\<lparr>audioTrack := a\<rparr>) = None" "toasts ((startExport idle)\<lparr>audioTrack := a\<rparr>) = []"
  by (simp_all add: startExport_def setExportProgress_def setExporting_def idle_def progressValues_def)

lemma idle_fields:
  "seeks idle = []" "pushed idle = []" "progressValues idle = []" "emitted idle = []"
  by (simp_all add: idle_def progressValues_def)


lemma exportVideo_Complete_frames:
  assumes "exportVideo ed pf = (Complete, s)" and "0 < fps ed"
  shows "int (length (seeks s)) = max 0 (totalFrames ed pf)"
    and "pushed s = [0..<nat (totalFrames ed pf)]"
proof -
  obtain s2 where run: "exportLoop ed pf (totalFrames ed pf) 0 (loopEntry pf) = (Normal, s2)"
    and s: "s = finallyBlock (finishExport ed s2)"
    using assms(1) by (rule exportVideo_Complete)
  from exportLoop_all_frames [OF run assms(2)] s
  show "int (length (seeks s)) = max 0 (totalFrames ed pf)"
    and "pushed s = [0..<nat (totalFrames ed pf)]"
    by (simp_all add: loopEntry_fields finallyBlock_fields finishExport_fields)
qed



lemma sample_run:
  "fst (exportVideo sampleEditor (samplePlatform d)) = Complete"
  "int (length (seeks (snd (exportVideo sampleEditor (samplePlatform d)))))
     = max 0 (totalFrames sampleEditor (samplePlatform d))"
  "pushed (snd (exportVideo sampleEditor (samplePlatform d)))
     = [0..<nat (totalFrames sampleEditor (samplePlatform d))]"
proof -
  obtain s2 where ev: "exportVideo sampleEditor (samplePlatform d)
      = (Complete, finallyBlock (finishExport sampleEditor s2))"
    by (rule sample_complete)
  have "0 < fps sampleEditor" by (simp add: sampleEditor_def)
  from ev exportVideo_Complete_frames [OF ev this]
  show "fst (exportVideo sampleEditor (samplePlatform d)) = Complete"
    "int (length (seeks (snd (exportVideo sampleEditor (samplePlatform d)))))
     = max 0 (totalFrames sampleEditor (samplePlatform d))"
    "pushed (snd (exportVideo sampleEditor (samplePlatform d)))
     = [0..<nat (totalFrames sampleEditor (samplePlatform d))]"
    by simp_all
qed





subsection \<open>Progress\<close>

lemma progInv_entry: "progInv T 0 (loopEntry pf)"
  by (simp add: progInv_def loopEntry_fields percentOf_def)

lemma progInv_facts:
  assumes "progInv T (length (pushed s)) s"
  shows "sorted (progressValues s)"
    and "\<forall>v \<in> set (progressValues s). 0 \<le> v \<and> v \<le> 100"
    and "length (pushed s) \<le> length (progressValues s)"
    and "0 < length (pushed s) \<Longrightarrow> int (length (pushed s)) = T \<Longrightarrow> last (progressValues s) = 100"
    and "length (pushed s) = 0 \<Longrightarrow> progressValues s = [0]"
proof -
  let ?n = "length (pushed s)"
  from assms have pv: "progressValues s = map (percentOf T) [0..<Suc ?n]"
    and n: "?n = 0 \<or> int ?n \<le> T" by (simp_all add: progInv_def)
  show "sorted (progressValues s)" unfolding pv using n by (rule percent_list(1))
  show "\<forall>v \<in> set (progressValues s). 0 \<le> v \<and> v \<le> 100"
    unfolding pv using n by (rule percent_list(2))
  show "length (pushed s) \<le> length (progressValues s)" unfolding pv by simp
  show "last (progressValues s) = 100" if "0 < ?n" "int ?n = T"
    unfolding pv using n that by (rule percent_list(3))
  show "progressValues s = [0]" if "?n = 0"
    unfolding pv using that by (simp add: percentOf_def)
qed

lemma exportLoop_empty:
  assumes "totalFrames ed pf \<le> 0"
  shows "exportLoop ed pf (totalFrames ed pf) 0 s = (Normal, s)"
  using assms by (intro exportLoop_leave) simp

lemma totalFrames_pos_fps:
  assumes "0 < totalFrames ed pf"
  shows "0 < fps ed" and "0 < duration pf"
proof -
  from assms have p: "0 < duration pf * of_nat (fps ed)"
    unfolding totalFrames_def by (simp only: zero_less_ceiling)
  then show "0 < fps ed" by (cases "fps ed = 0") simp_all
  with p show "0 < duration pf" by (simp add: zero_less_mult_iff)
qed

text \<open>
  Claim C3, as amended. In every run of \<^verbatim>\<open>exportVideo\<close> the numbers passed to
  \<^verbatim>\<open>setExportProgress\<close> are non-decreasing and lie in \<open>[0,100]\<close>, and there is at least
  one of them for each frame put on the output. When the export completes and
  \<open>totalFrames > 0\<close> the last number is exactly 100; when it completes with
  \<open>totalFrames \<le> 0\<close> (a duration of 0) the only number is 0. After the last number a
  call that exits emits \<^verbatim>\<open>null\<close>, the reset of the \<^verbatim>\<open>finally\<close> block.
\<close>

theorem export_progress:
  assumes "exportVideo ed pf = (oc, s)"
  shows "sorted (progressValues s)
       \<and> (\<forall>v \<in> set (progressValues s). 0 \<le> v \<and> v \<le> 100)
       \<and> length (pushed s) \<le> length (progressValues s)
       \<and> (oc = Complete \<and> 0 < totalFrames ed pf \<longrightarrow> last (progressValues s) = 100)
       \<and> (oc = Complete \<and> totalFrames ed pf \<le> 0 \<longrightarrow> progressValues s = [0])
       \<and> (oc = ReturnedEarly \<or> oc = Complete \<or> oc = Failed \<longrightarrow> last (emitted s) = None)"
proof -
  have loop: "progInv (totalFrames ed pf) (length (pushed s2)) s2"
    if "exportLoop ed pf (totalFrames ed pf) 0 (loopEntry pf) = (c, s2)" for c s2
    using that progInv_entry by (rule exportLoop_progress)
  have start: "progInv (totalFrames ed pf) (length (pushed s0)) s0"
    if "progressValues s0 = [0]" "pushed s0 = []" for s0
    using that by (simp add: progInv_def percentOf_def)
  show ?thesis
  proof (cases ed pf rule: exportVideo_cases)
    case not_started
    with assms show ?thesis by (auto simp: idle_fields)
  next
    case early
    with assms have s: "s = finallyBlock (startExport idle)" "oc = ReturnedEarly" by simp_all
    have "progInv (totalFrames ed pf) (length (pushed s)) s"
      unfolding s by (rule start) (simp_all add: finallyBlock_fields startExport_fields)
    from progInv_facts(1-3) [OF this] s show ?thesis by (simp add: finallyBlock_fields)
  next
    case unsupported
    with assms have s: "s = finallyBlock (catchError ((startExport idle)\<lparr>audioTrack := audioDecodes pf\<rparr>))"
      "oc = Failed" by simp_all
    have "progInv (totalFrames ed pf) (length (pushed s)) s"
      unfolding s by (rule start) (simp_all add: finallyBlock_fields catchError_fields startExport_fields)
    from progInv_facts(1-3) [OF this] s show ?thesis by (simp add: finallyBlock_fields)
  next
    case (complete s2)
    with assms have s: "s = finallyBlock (finishExport ed s2)" "oc = Complete" by simp_all
    have f: "progressValues s = progressValues s2" "pushed s = pushed s2"
      unfolding s by (simp_all add: finallyBlock_fields finishExport_fields)
    have inv: "progInv (totalFrames ed pf) (length (pushed s)) s"
      using loop [OF complete(6)] f by (simp add: progInv_def)
    have last: "last (progressValues s) = 100" if T: "0 < totalFrames ed pf"
    proof -
      have "pushed s2 = [0..<nat (totalFrames ed pf)]"
        using exportLoop_all_frames(2) [OF complete(6) totalFrames_pos_fps(1) [OF T]]
        by (simp add: loopEntry_fields)
      with f T have "0 < length (pushed s)" "int (length (pushed s)) = totalFrames ed pf" by simp_all
      then show ?thesis by (rule progInv_facts(4) [OF inv])
    qed
    have zero: "progressValues s = [0]" if T: "totalFrames ed pf \<le> 0"
    proof -
      from exportLoop_empty [OF T, of "loopEntry pf"] complete(6) have "s2 = loopEntry pf" by simp
      with f have "length (pushed s) = 0" by (simp add: loopEntry_fields)
      then show ?thesis by (rule progInv_facts(5) [OF inv])
    qed
    from progInv_facts(1-3) [OF inv] last zero s show ?thesis by (simp add: finallyBlock_fields)
  next
    case (failed s2)
    with assms have s: "s = finallyBlock (catchError s2)" "oc = Failed" by simp_all
    have "progInv (totalFrames ed pf) (length (pushed s)) s"
      using loop [OF failed(6)] unfolding s
      by (simp add: progInv_def finallyBlock_fields catchError_fields)
    from progInv_facts(1-3) [OF this] s show ?thesis by (simp add: finallyBlock_fields)
  next
    case (suspended s2)
    with assms have s: "s = s2" "oc = Suspended" by simp_all
    from progInv_facts(1-3) [OF loop [OF suspended(6)]] s show ?thesis by simp
  qed
qed

lemma totalFrames_sample_1: "totalFrames sampleEditor (samplePlatform 1) = 30"
  by (simp add: totalFrames_def sampleEditor_def samplePlatform_def)

lemma totalFrames_sample_0: "totalFrames sampleEditor (samplePlatform 0) = 0"
  by (simp add: totalFrames_def sampleEditor_def samplePlatform_def)

text \<open>The theorem of C3 at one second at 30 fps.\<close>

theorem export_progress_witness:
  "fst (exportVideo sampleEditor (samplePlatform 1)) = Complete
   \<and> 0 < totalFrames sampleEditor (samplePlatform 1)
   \<and> last (progressValues (snd (exportVideo sampleEditor (samplePlatform 1)))) = 100
   \<and> sorted (progressValues (snd (exportVideo sampleEditor (samplePlatform 1))))"
  using export_progress [OF prod.collapse [symmetric], of sampleEditor "samplePlatform 1"]
    sample_run(1) [of 1]
  by (simp add: totalFrames_sample_1)

text \<open>
  Claim C3 as stated fails for a source of duration 0: the export completes, and the
  last (and only) progress number is 0, not 100.
\<close>

theorem export_progress_counterexample:
  "fst (exportVideo sampleEditor (samplePlatform 0)) = Complete
   \<and> progressValues (snd (exportVideo sampleEditor (samplePlatform 0))) = [0]
   \<and> last (progressValues (snd (exportVideo sampleEditor (samplePlatform 0)))) \<noteq> 100"
proof -
  obtain s2 where run: "exportLoop sampleEditor (samplePlatform 0)
        (totalFrames sampleEditor (samplePlatform 0)) 0 (loopEntry (samplePlatform 0)) = (Normal, s2)"
    and ev: "exportVideo sampleEditor (samplePlatform 0)
      = (Complete, finallyBlock (finishExport sampleEditor s2))"
    by (rule sample_complete)
  have "s2 = loopEntry (samplePlatform 0)"
    using run exportLoop_empty [of sampleEditor "samplePlatform 0" "loopEntry (samplePlatform 0)"]
    by (simp add: totalFrames_sample_0)
  with ev show ?thesis
    by (simp add: finallyBlock_fields finishExport_fields loopEntry_fields)
qed

text \<open>
  The ffmpeg worker ends its messages with a progress of 100; the listener on the main
  thread multiplies every progress by 100 before it resets the state.
\<close>

lemma workerMessages_last:
  "progress (last (workerMessages ratios)) = 100 \<and> url (last (workerMessages ratios))"
  by (simp add: workerMessages_def)

lemma workerMessages_listener:
  "concat (map onWorkerMessage (workerMessages ratios))
     = map (\<lambda>r. Some (r * 100)) ratios @ [Some 10000, None]"
  by (induction ratios) (simp_all add: workerMessages_def onWorkerMessage_def)

subsection \<open>Cancellation\<close>








subsection \<open>An export with no frame\<close>






end
